theory Spec2Isabelle
  imports Main
begin

section \<open>The contract model read by the checker\<close>

text \<open>
  The script \<^verbatim>\<open>nonreentrant-check.py\<close> walks the object model that the analysis engine
  builds. Of a modifier it reads only the string form \<^verbatim>\<open>str(x)\<close>; of a function the
  attributes \<^verbatim>\<open>is_constructor\<close>, \<^verbatim>\<open>view\<close>, \<^verbatim>\<open>modifiers\<close>, \<^verbatim>\<open>name\<close> and
  \<^verbatim>\<open>canonical_name\<close>; of a contract its string form and \<^verbatim>\<open>functions_entry_points\<close>.
\<close>

record modifier =
  modifier_str :: string

record func =
  is_constructor :: bool
  view :: bool
  modifiers :: "modifier list"
  name :: string
  canonical_name :: string

record contract =
  contract_str :: string
  functions_entry_points :: "func list"

text \<open>
  The only failure of the script's own code: an attribute read on \<^verbatim>\<open>None\<close>, which
  Python raises as \<^verbatim>\<open>AttributeError\<close>.
\<close>

datatype error = AttributeError

text \<open>
  The state the script runs in: the module-level project object \<^verbatim>\<open>contracts\<close> (the
  contracts of the loaded project under their names) and the text printed so far, one
  entry for each call of \<^verbatim>\<open>print\<close> (which ends the entry with a newline).
\<close>

record world =
  contracts :: "(string \<times> contract) list"
  stdout :: "string list"

text \<open>
  Modelled from the spec: the engine's lookup \<^verbatim>\<open>get_contract_from_name\<close>, which is not
  part of the script. The spec gives it as \<^verbatim>\<open>ProjectModel.getContract(name) -> Contract | null\<close>.
\<close>

definition get_contract_from_name :: "world \<Rightarrow> string \<Rightarrow> contract option" where
  "get_contract_from_name w n = map_of (contracts w) n"

definition print :: "string \<Rightarrow> world \<Rightarrow> world" where
  "print s w = w\<lparr>stdout := stdout w @ [s]\<rparr>"

section \<open>The three lines of the report\<close>

text \<open>
  \<^verbatim>\<open>f"### Check {contract} access controls"\<close>: the f-string formats the argument with
  \<^verbatim>\<open>str\<close>, and \<^verbatim>\<open>str(None)\<close> is \<^verbatim>\<open>"None"\<close>.
\<close>

fun str_contract :: "contract option \<Rightarrow> string" where
  "str_contract None = ''None''"
| "str_contract (Some c) = contract_str c"

definition header_line :: "contract option \<Rightarrow> string" where
  "header_line contract = ''### Check '' @ str_contract contract @ '' access controls''"

text \<open>\<^verbatim>\<open>f"\t- {function.canonical_name} should have an non re-eentrant modifier"\<close>\<close>

definition flagged_line :: "func \<Rightarrow> string" where
  "flagged_line function =
     CHR 0x09 # ''- '' @ canonical_name function @ '' should have an non re-eentrant modifier''"

text \<open>\<^verbatim>\<open>"\t- No bug found"\<close>\<close>

definition no_bug_line :: string where
  "no_bug_line = CHR 0x09 # ''- No bug found''"

section \<open>The checker\<close>

text \<open>
  One pass of the body of \<^verbatim>\<open>for function in contract.functions_entry_points\<close>, on the
  loop's state: the accumulator \<^verbatim>\<open>no_bug_found\<close> and the world. A \<^verbatim>\<open>continue\<close> and
  a condition that fails leave the state as it is. \<^verbatim>\<open>not function.modifiers\<close> is
  Python's test for the empty list, \<^verbatim>\<open>any\<close> over the generator is \<^const>\<open>list_ex\<close>, and
  \<^verbatim>\<open>in\<close> on a list of strings is membership by equality.
\<close>

definition loop_body :: "func \<Rightarrow> string list \<Rightarrow> string list \<Rightarrow> bool \<times> world \<Rightarrow> bool \<times> world" where
  "loop_body function modifiers_access_controls whitelist s =
     (if is_constructor function then s
      else if view function then s
      else if modifiers function = [] \<or>
              \<not> list_ex (\<lambda>x. modifier_str x \<in> set modifiers_access_controls) (modifiers function)
      then
        (if \<not> name function \<in> set whitelist
         then (False, print (flagged_line function) (snd s))
         else s)
      else s)"

fun for_functions :: "func list \<Rightarrow> string list \<Rightarrow> string list \<Rightarrow> bool \<times> world \<Rightarrow> bool \<times> world" where
  "for_functions [] modifiers_access_controls whitelist s = s"
| "for_functions (function # rest) modifiers_access_controls whitelist s =
     for_functions rest modifiers_access_controls whitelist
       (loop_body function modifiers_access_controls whitelist s)"

text \<open>
  \<^verbatim>\<open>_check_access_controls\<close>. The header is printed first; only then is
  \<^verbatim>\<open>contract.functions_entry_points\<close> read, which raises on \<^verbatim>\<open>None\<close>.
\<close>

definition check_access_controls ::
  "contract option \<Rightarrow> string list \<Rightarrow> string list \<Rightarrow> world \<Rightarrow> (error + unit) \<times> world" where
  "check_access_controls contract modifiers_access_controls whitelist w =
     (let w1 = print (header_line contract) w in
      case contract of
        None \<Rightarrow> (Inl AttributeError, w1)
      | Some c \<Rightarrow>
          (let (no_bug_found, w2) =
                 for_functions (functions_entry_points c) modifiers_access_controls whitelist
                   (True, w1)
           in (Inr (), if no_bug_found then print no_bug_line w2 else w2)))"

text \<open>The module's invocation, with its three literals.\<close>

definition main :: "world \<Rightarrow> (error + unit) \<times> world" where
  "main w =
     check_access_controls (get_contract_from_name w ''Vault'')
       [''nonReentrant'']
       [''batchSwapGivenIn'', ''batchSwapGivenOut'', ''queryBatchSwapGivenIn'',
        ''queryBatchSwapGivenOut'', ''queryBatchSwapHelper'']
       w"

section \<open>The specification's words\<close>

text \<open>
  The spec's \<^verbatim>\<open>isProtected\<close>: the function has at least one modifier whose string form
  is a member of the required modifier names.
\<close>

definition spec_is_protected :: "string list \<Rightarrow> func \<Rightarrow> bool" where
  "spec_is_protected required f = (\<exists>m \<in> set (modifiers f). modifier_str m \<in> set required)"

text \<open>
  The spec's flag predicate (P6): not a constructor, not a view, not protected, and the
  bare name not in the whitelist.
\<close>

definition spec_flagged :: "string list \<Rightarrow> string list \<Rightarrow> func \<Rightarrow> bool" where
  "spec_flagged required wl f =
     (\<not> is_constructor f \<and> \<not> view f \<and> \<not> spec_is_protected required f \<and> name f \<notin> set wl)"

section \<open>The report and a sample contract\<close>

text \<open>
  What one invocation on a contract prints, started on an empty output: the report.
\<close>

definition report :: "contract \<Rightarrow> string list \<Rightarrow> string list \<Rightarrow> string list" where
  "report c modifiers_access_controls whitelist =
     stdout (snd (check_access_controls (Some c) modifiers_access_controls whitelist
       \<lparr>contracts = [], stdout = []\<rparr>))"

text \<open>
  The contract of the spec's first scenario: \<^verbatim>\<open>deposit\<close> without a modifier,
  \<^verbatim>\<open>withdraw\<close> guarded, a whitelisted \<^verbatim>\<open>batchSwapGivenIn\<close>, the constructor and a
  view.
\<close>

definition nonReentrant :: modifier where
  "nonReentrant = \<lparr>modifier_str = ''nonReentrant''\<rparr>"

definition deposit :: func where
  "deposit = \<lparr>is_constructor = False, view = False, modifiers = [],
     name = ''deposit'', canonical_name = ''Vault.deposit()''\<rparr>"

definition withdraw :: func where
  "withdraw = \<lparr>is_constructor = False, view = False, modifiers = [nonReentrant],
     name = ''withdraw'', canonical_name = ''Vault.withdraw()''\<rparr>"

definition batchSwapGivenIn :: func where
  "batchSwapGivenIn = \<lparr>is_constructor = False, view = False, modifiers = [],
     name = ''batchSwapGivenIn'', canonical_name = ''Vault.batchSwapGivenIn()''\<rparr>"

definition constructor :: func where
  "constructor = \<lparr>is_constructor = True, view = False, modifiers = [],
     name = ''constructor'', canonical_name = ''Vault.constructor()''\<rparr>"

definition balanceOf :: func where
  "balanceOf = \<lparr>is_constructor = False, view = True, modifiers = [],
     name = ''balanceOf'', canonical_name = ''Vault.balanceOf()''\<rparr>"

definition Vault :: contract where
  "Vault = \<lparr>contract_str = ''Vault'',
     functions_entry_points = [deposit, withdraw, batchSwapGivenIn, constructor, balanceOf]\<rparr>"

definition empty_world :: world where
  "empty_world = \<lparr>contracts = [], stdout = []\<rparr>"

lemmas scenario_defs =
  nonReentrant_def deposit_def withdraw_def batchSwapGivenIn_def constructor_def
  balanceOf_def Vault_def empty_world_def

section \<open>What \<^const>\<open>print\<close> changes\<close>

lemma print_stdout: "stdout (print s w) = stdout w @ [s]"
  by (simp add: print_def)

lemma print_contracts: "contracts (print s w) = contracts w"
  by (simp add: print_def)

lemma print_neq: "print s w \<noteq> w"
proof
  assume "print s w = w"
  then have "stdout (print s w) = stdout w" by simp
  then show False by (simp add: print_stdout)
qed

lemma flagged_line_neq_no_bug: "flagged_line f \<noteq> no_bug_line"
proof
  assume "flagged_line f = no_bug_line"
  then have "length (flagged_line f) = length no_bug_line" by simp
  then show False by (simp add: flagged_line_def no_bug_line_def)
qed

lemma header_line_neq_no_bug: "header_line c \<noteq> no_bug_line"
  by (simp add: header_line_def no_bug_line_def)

section \<open>The loop against the flag predicate\<close>

lemma list_ex_spec_is_protected:
  "list_ex (\<lambda>x. modifier_str x \<in> set mac) (modifiers f) = spec_is_protected mac f"
  by (simp add: spec_is_protected_def list_ex_iff)

lemma loop_body_eq:
  "loop_body f mac wl s =
     (if spec_flagged mac wl f then (False, print (flagged_line f) (snd s)) else s)"
  by (auto simp: loop_body_def spec_flagged_def list_ex_spec_is_protected spec_is_protected_def)

lemma for_functions_append:
  "for_functions (xs @ ys) mac wl s = for_functions ys mac wl (for_functions xs mac wl s)"
  by (induction xs arbitrary: s) simp_all

lemma for_functions_eq:
  "for_functions fs mac wl (nbf, w) =
     (nbf \<and> filter (spec_flagged mac wl) fs = [],
      w\<lparr>stdout := stdout w @ map flagged_line (filter (spec_flagged mac wl) fs)\<rparr>)"
proof (induction fs arbitrary: nbf w)
  case Nil
  show ?case by simp
next
  case (Cons f fs)
  show ?case
    by (simp add: loop_body_eq Cons.IH print_def)
qed

lemma check_access_controls_eq:
  "check_access_controls (Some c) mac wl w =
     (Inr (),
      w\<lparr>stdout := stdout w @ header_line (Some c) #
          map flagged_line (filter (spec_flagged mac wl) (functions_entry_points c)) @
          (if filter (spec_flagged mac wl) (functions_entry_points c) = []
           then [no_bug_line] else [])\<rparr>)"
  by (simp add: check_access_controls_def for_functions_eq print_def)

lemma check_access_controls_skip:
  assumes "\<not> spec_flagged mac wl f"
  shows "check_access_controls (Some (c\<lparr>functions_entry_points := pre @ f # post\<rparr>)) mac wl w =
         check_access_controls (Some (c\<lparr>functions_entry_points := pre @ post\<rparr>)) mac wl w"
  using assms by (simp add: check_access_controls_eq header_line_def)

lemma flagged_lines_concat:
  "map flagged_line (filter P fs) = concat (map (\<lambda>f. if P f then [flagged_line f] else []) fs)"
  by (induction fs) simp_all

lemma check_access_controls_per_function:
  "check_access_controls (Some c) mac wl w =
     (Inr (),
      w\<lparr>stdout := stdout w @ header_line (Some c) #
         concat (map (\<lambda>f. if spec_flagged mac wl f then [flagged_line f] else [])
           (functions_entry_points c)) @
         (if \<exists>f \<in> set (functions_entry_points c). spec_flagged mac wl f
          then [] else [no_bug_line])\<rparr>)"
proof -
  have "(filter (spec_flagged mac wl) (functions_entry_points c) = []) =
      (\<not> (\<exists>f \<in> set (functions_entry_points c). spec_flagged mac wl f))"
    by (simp add: filter_empty_conv)
  then show ?thesis
    by (simp add: check_access_controls_eq flagged_lines_concat)
qed

lemma flagged_line_inj: "(flagged_line f = flagged_line g) = (canonical_name f = canonical_name g)"
  by (simp add: flagged_line_def)

lemma flagged_line_neq_header: "flagged_line f \<noteq> header_line c"
  by (simp add: flagged_line_def header_line_def)

lemma flagged_line_in_report:
  "(flagged_line f \<in> set (report c mac wl)) =
     (\<exists>g \<in> set (functions_entry_points c). canonical_name g = canonical_name f \<and>
        spec_flagged mac wl g)"
proof -
  have "(flagged_line f \<in> set (report c mac wl)) =
      (flagged_line f \<in> flagged_line ` set (filter (spec_flagged mac wl) (functions_entry_points c)))"
    by (simp add: report_def check_access_controls_eq flagged_line_neq_header
        flagged_line_neq_no_bug del: set_filter)
  also have "\<dots> = (\<exists>g \<in> set (functions_entry_points c). canonical_name g = canonical_name f \<and>
        spec_flagged mac wl g)"
    by (auto simp: image_iff flagged_line_inj)
  finally show ?thesis .
qed

section \<open>The claims\<close>

text \<open>
  C1 (P6, the flag condition is exact). The run of the checker on a contract returns
  without an error and prints, after the header, for every entry-point function in its
  turn exactly one flagged line, the line built around the function's canonical name, if
  the function is not a constructor, not a view, none of its modifiers has a string form
  among the required modifier names and its bare name is not in the whitelist, and
  nothing for the function in every other case; the "No bug found" line follows if and
  only if no entry-point function meets the four conditions. So the flagged line with a
  given canonical name is in the report if and only if an entry-point function of that
  canonical name meets the four conditions.
\<close>

theorem flag_condition_exact:
  "check_access_controls (Some c) mac wl w =
     (Inr (),
      w\<lparr>stdout := stdout w @ header_line (Some c) #
         concat (map
           (\<lambda>f. if \<not> is_constructor f \<and> \<not> view f \<and>
                    (\<forall>m \<in> set (modifiers f). modifier_str m \<notin> set mac) \<and> name f \<notin> set wl
                 then [CHR 0x09 # ''- '' @ canonical_name f @
                         '' should have an non re-eentrant modifier'']
                 else [])
           (functions_entry_points c)) @
         (if \<exists>f \<in> set (functions_entry_points c).
               \<not> is_constructor f \<and> \<not> view f \<and>
               (\<forall>m \<in> set (modifiers f). modifier_str m \<notin> set mac) \<and> name f \<notin> set wl
          then [] else [no_bug_line])\<rparr>)
   \<and> ((CHR 0x09 # ''- '' @ canonical_name (f :: func) @
          '' should have an non re-eentrant modifier'' \<in> set (report c mac wl)) =
        (\<exists>g \<in> set (functions_entry_points c). canonical_name g = canonical_name f \<and>
           \<not> is_constructor g \<and> \<not> view g \<and>
           (\<forall>m \<in> set (modifiers g). modifier_str m \<notin> set mac) \<and> name g \<notin> set wl))"
proof -
  have pred: "spec_flagged mac wl =
      (\<lambda>f. \<not> is_constructor f \<and> \<not> view f \<and>
        (\<forall>m \<in> set (modifiers f). modifier_str m \<notin> set mac) \<and> name f \<notin> set wl)"
    by (auto simp: fun_eq_iff spec_flagged_def spec_is_protected_def)
  have line: "flagged_line =
      (\<lambda>f. CHR 0x09 # ''- '' @ canonical_name f @ '' should have an non re-eentrant modifier'')"
    by (simp add: fun_eq_iff flagged_line_def)
  show ?thesis
    using check_access_controls_per_function [of c mac wl w] flagged_line_in_report [of f c mac wl]
    unfolding pred line by simp
qed

theorem flag_condition_exact_witness:
  "check_access_controls (Some Vault) [''nonReentrant''] [''batchSwapGivenIn''] empty_world =
     (Inr (),
      \<lparr>contracts = [],
       stdout = [''### Check Vault access controls'',
         CHR 0x09 # ''- Vault.deposit() should have an non re-eentrant modifier'']\<rparr>)
   \<and> CHR 0x09 # ''- Vault.deposit() should have an non re-eentrant modifier''
       \<in> set (report Vault [''nonReentrant''] [''batchSwapGivenIn''])
   \<and> CHR 0x09 # ''- Vault.withdraw() should have an non re-eentrant modifier''
       \<notin> set (report Vault [''nonReentrant''] [''batchSwapGivenIn''])"
  using flag_condition_exact [where c = Vault and mac = "[''nonReentrant'']"
      and wl = "[''batchSwapGivenIn'']" and w = empty_world and f = deposit]
    flag_condition_exact [where c = Vault and mac = "[''nonReentrant'']"
      and wl = "[''batchSwapGivenIn'']" and w = empty_world and f = withdraw]
  by (simp add: scenario_defs header_line_def)

text \<open>
  C2, as amended. When the lookup of the contract name yields \<^verbatim>\<open>None\<close>, the run prints
  the header line \<^verbatim>\<open>### Check None access controls\<close> and then fails with the attribute
  error, before any flagged line or the "No bug found" line: the header is the only line
  printed.
\<close>

theorem missing_contract_header_then_error:
  "get_contract_from_name w ''Vault'' = None \<Longrightarrow>
     main w = (Inl AttributeError, w\<lparr>stdout := stdout w @ [''### Check None access controls'']\<rparr>)"
  by (simp add: main_def check_access_controls_def header_line_def print_def)

theorem missing_contract_header_then_error_witness:
  "get_contract_from_name \<lparr>contracts = [(''Pool'', Vault)], stdout = []\<rparr> ''Vault'' = None
   \<and> main \<lparr>contracts = [(''Pool'', Vault)], stdout = []\<rparr> =
       (Inl AttributeError,
        \<lparr>contracts = [(''Pool'', Vault)], stdout = [''### Check None access controls'']\<rparr>)"
proof -
  have absent: "get_contract_from_name \<lparr>contracts = [(''Pool'', Vault)], stdout = []\<rparr> ''Vault'' = None"
    by (simp add: get_contract_from_name_def)
  show ?thesis
    using absent missing_contract_header_then_error [OF absent] by simp
qed

text \<open>
  C2 as the spec states it fails: on a project without the contract the run has already
  printed a line, the header, when it fails.
\<close>

theorem missing_contract_silent_counterexample:
  "get_contract_from_name empty_world ''Vault'' = None
   \<and> fst (main empty_world) = Inl AttributeError
   \<and> stdout (snd (main empty_world)) = [''### Check None access controls'']
   \<and> stdout (snd (main empty_world)) \<noteq> stdout empty_world"
  by (simp add: empty_world_def get_contract_from_name_def main_def check_access_controls_def
      header_line_def print_def)

text \<open>
  C3 (the "No bug found" line, and P7). The last line of the report is the "No bug found"
  line if and only if no entry-point function was flagged; the report is the header
  followed by that single line when none was flagged and by the flagged lines, with
  nothing after them, otherwise; neither the header nor a flagged line is ever the
  "No bug found" line. A contract with no entry-point function prints exactly the header
  and the "No bug found" line.
\<close>

theorem no_bug_line_iff_none_flagged:
  "((last (stdout (snd (check_access_controls (Some c) mac wl w))) = no_bug_line) =
      (filter (spec_flagged mac wl) (functions_entry_points c) = []))
   \<and> stdout (snd (check_access_controls (Some c) mac wl w)) =
       stdout w @ header_line (Some c) #
         (if filter (spec_flagged mac wl) (functions_entry_points c) = []
          then [no_bug_line]
          else map flagged_line (filter (spec_flagged mac wl) (functions_entry_points c)))
   \<and> header_line (Some c) \<noteq> no_bug_line
   \<and> no_bug_line \<notin> set (map flagged_line (filter (spec_flagged mac wl) (functions_entry_points c)))
   \<and> stdout (snd (check_access_controls (Some (c\<lparr>functions_entry_points := []\<rparr>)) mac wl w)) =
       stdout w @ [header_line (Some c), no_bug_line]"
proof -
  let ?flagged = "filter (spec_flagged mac wl) (functions_entry_points c)"
  have notin: "no_bug_line \<notin> set (map flagged_line ?flagged)"
    by (auto simp: flagged_line_neq_no_bug [symmetric])
  have out: "stdout (snd (check_access_controls (Some c) mac wl w)) =
      stdout w @ header_line (Some c) #
        (if ?flagged = [] then [no_bug_line] else map flagged_line ?flagged)"
    by (simp add: check_access_controls_eq)
  have last_iff: "(last (stdout (snd (check_access_controls (Some c) mac wl w))) = no_bug_line) =
      (?flagged = [])"
  proof (cases "?flagged = []")
    case True
    then show ?thesis by (simp add: out)
  next
    case False
    then have "last (map flagged_line ?flagged) \<in> set (map flagged_line ?flagged)"
      by (intro last_in_set) simp
    with notin have "last (map flagged_line ?flagged) \<noteq> no_bug_line"
      by metis
    with False show ?thesis by (simp add: out)
  qed
  have empty: "stdout (snd (check_access_controls (Some (c\<lparr>functions_entry_points := []\<rparr>)) mac wl w)) =
      stdout w @ [header_line (Some c), no_bug_line]"
    by (simp add: check_access_controls_eq header_line_def)
  show ?thesis
    using last_iff out header_line_neq_no_bug [of "Some c"] notin empty by blast
qed

theorem no_bug_line_iff_none_flagged_witness:
  "stdout (snd (check_access_controls (Some Vault) [''nonReentrant''] [''batchSwapGivenIn'']
      empty_world)) =
     [''### Check Vault access controls'',
      CHR 0x09 # ''- Vault.deposit() should have an non re-eentrant modifier'']
   \<and> stdout (snd (check_access_controls (Some (Vault\<lparr>functions_entry_points := []\<rparr>))
      [''nonReentrant''] [''batchSwapGivenIn''] empty_world)) =
     [''### Check Vault access controls'', CHR 0x09 # ''- No bug found'']"
  using no_bug_line_iff_none_flagged [of Vault "[''nonReentrant'']" "[''batchSwapGivenIn'']"
      empty_world]
  by (simp add: scenario_defs spec_flagged_def spec_is_protected_def header_line_def
      flagged_line_def no_bug_line_def)

text \<open>
  C4 (P2 and P3, constructors and views are exempt). For a function that is a constructor
  or a view, whatever its modifiers, its name and the two configuration lists, the body
  of the loop leaves the state as it is (no line, the accumulator untouched), and the
  whole run on a contract holding the function does what it does on the contract without
  it.
\<close>

theorem constructor_view_exempt:
  "is_constructor f \<or> view f \<Longrightarrow>
     loop_body f mac wl s = s
     \<and> check_access_controls (Some (c\<lparr>functions_entry_points := pre @ f # post\<rparr>)) mac wl w =
       check_access_controls (Some (c\<lparr>functions_entry_points := pre @ post\<rparr>)) mac wl w"
proof -
  assume exempt: "is_constructor f \<or> view f"
  then have body: "loop_body f mac wl s = s"
    by (auto simp: loop_body_def)
  from exempt have "\<not> spec_flagged mac wl f"
    by (auto simp: spec_flagged_def)
  then show ?thesis
    using body by (simp add: check_access_controls_skip)
qed

theorem constructor_view_exempt_witness:
  "(is_constructor constructor \<or> view constructor)
   \<and> (is_constructor balanceOf \<or> view balanceOf)
   \<and> loop_body constructor [] [] (True, empty_world) = (True, empty_world)
   \<and> loop_body balanceOf [] [] (True, empty_world) = (True, empty_world)"
proof -
  have c: "is_constructor constructor \<or> view constructor"
    by (simp add: constructor_def)
  have v: "is_constructor balanceOf \<or> view balanceOf"
    by (simp add: balanceOf_def)
  show ?thesis
    using c v
      constructor_view_exempt [OF c, where mac = "[]" and wl = "[]" and s = "(True, empty_world)"]
      constructor_view_exempt [OF v, where mac = "[]" and wl = "[]" and s = "(True, empty_world)"]
    by simp
qed

text \<open>
  C5 (P4, a required modifier suffices). For a function with at least one modifier whose
  string form is among the required modifier names, whatever the whitelist holds, the
  body of the loop leaves the state as it is and the run on a contract holding the
  function does what it does without it. A function without any modifier is never taken
  as protected: whatever the required names are, it is flagged unless it is a
  constructor, a view or whitelisted.
\<close>

theorem required_modifier_suffices:
  "((\<exists>m \<in> set (modifiers f). modifier_str m \<in> set mac) \<longrightarrow>
      loop_body f mac wl s = s
      \<and> check_access_controls (Some (c\<lparr>functions_entry_points := pre @ f # post\<rparr>)) mac wl w =
        check_access_controls (Some (c\<lparr>functions_entry_points := pre @ post\<rparr>)) mac wl w)
   \<and> (modifiers g = [] \<longrightarrow>
      loop_body g mac wl (nbf, w) =
        (if is_constructor g \<or> view g \<or> name g \<in> set wl then (nbf, w)
         else (False, print (flagged_line g) w)))"
proof (intro conjI impI)
  assume guarded: "\<exists>m \<in> set (modifiers f). modifier_str m \<in> set mac"
  then show "loop_body f mac wl s = s"
    by (auto simp: loop_body_def list_ex_iff)
  from guarded have "\<not> spec_flagged mac wl f"
    by (simp add: spec_flagged_def spec_is_protected_def)
  then show "check_access_controls (Some (c\<lparr>functions_entry_points := pre @ f # post\<rparr>)) mac wl w =
      check_access_controls (Some (c\<lparr>functions_entry_points := pre @ post\<rparr>)) mac wl w"
    by (rule check_access_controls_skip)
next
  assume "modifiers g = []"
  then show "loop_body g mac wl (nbf, w) =
      (if is_constructor g \<or> view g \<or> name g \<in> set wl then (nbf, w)
       else (False, print (flagged_line g) w))"
    by (simp add: loop_body_def)
qed

theorem required_modifier_suffices_witness:
  "(\<exists>m \<in> set (modifiers withdraw). modifier_str m \<in> set [''nonReentrant''])
   \<and> modifiers deposit = []
   \<and> loop_body withdraw [''nonReentrant''] [] (True, empty_world) = (True, empty_world)
   \<and> loop_body deposit [''nonReentrant''] [] (True, empty_world) =
       (False, print (flagged_line deposit) empty_world)"
proof -
  have guarded: "\<exists>m \<in> set (modifiers withdraw). modifier_str m \<in> set [''nonReentrant'']"
    by (simp add: withdraw_def nonReentrant_def)
  have bare: "modifiers deposit = []"
    by (simp add: deposit_def)
  have exempt: "\<not> (is_constructor deposit \<or> view deposit \<or> name deposit \<in> set [])"
    by (simp add: deposit_def)
  show ?thesis
    using guarded bare exempt
      required_modifier_suffices [where f = withdraw and g = deposit
        and mac = "[''nonReentrant'']" and wl = "[]" and s = "(True, empty_world)"
        and nbf = True and w = empty_world and c = Vault and pre = "[]" and post = "[]"]
    by simp
qed

text \<open>
  C6 (P5, the whitelist overrides a missing guard). For a function that is neither a
  constructor nor a view and has no modifier among the required names, if its bare name
  is in the whitelist then the body of the loop prints nothing and leaves the accumulator
  as it is, and the run on a contract holding the function does what it does without it.
\<close>

theorem whitelist_overrides_missing_guard:
  "\<not> is_constructor f \<Longrightarrow> \<not> view f \<Longrightarrow>
   \<forall>m \<in> set (modifiers f). modifier_str m \<notin> set mac \<Longrightarrow>
   name f \<in> set wl \<Longrightarrow>
     loop_body f mac wl (nbf, w) = (nbf, w)
     \<and> check_access_controls (Some (c\<lparr>functions_entry_points := pre @ f # post\<rparr>)) mac wl w' =
       check_access_controls (Some (c\<lparr>functions_entry_points := pre @ post\<rparr>)) mac wl w'"
proof -
  assume listed: "name f \<in> set wl"
  then have body: "loop_body f mac wl (nbf, w) = (nbf, w)"
    by (simp add: loop_body_def)
  from listed have "\<not> spec_flagged mac wl f"
    by (simp add: spec_flagged_def)
  then show ?thesis
    using body by (simp add: check_access_controls_skip)
qed

theorem whitelist_overrides_missing_guard_witness:
  "\<not> is_constructor batchSwapGivenIn \<and> \<not> view batchSwapGivenIn
   \<and> modifiers batchSwapGivenIn = []
   \<and> name batchSwapGivenIn \<in> set [''batchSwapGivenIn'', ''batchSwapGivenOut'']
   \<and> loop_body batchSwapGivenIn [''nonReentrant''] [''batchSwapGivenIn'', ''batchSwapGivenOut'']
        (True, empty_world) = (True, empty_world)"
proof -
  have a: "\<not> is_constructor batchSwapGivenIn" and b: "\<not> view batchSwapGivenIn"
    and c: "\<forall>m \<in> set (modifiers batchSwapGivenIn). modifier_str m \<notin> set [''nonReentrant'']"
    and d: "name batchSwapGivenIn \<in> set [''batchSwapGivenIn'', ''batchSwapGivenOut'']"
    by (simp_all add: batchSwapGivenIn_def)
  show ?thesis
    using a b d
      whitelist_overrides_missing_guard [OF a b c d, where nbf = True and w = empty_world]
    by (simp add: batchSwapGivenIn_def)
qed

text \<open>
  C7 (P8, the report is complete and in order). The lines the loop prints are the flagged
  lines of exactly the entry-point functions that satisfy the flag predicate, one line
  each, in the order of the entry points; the report is the header, these lines, and the
  "No bug found" line when there are none. So there are as many flagged lines as
  functions satisfying the predicate.
\<close>

theorem flagged_lines_are_filtered_entry_points:
  "for_functions fs mac wl (nbf, w) =
     (nbf \<and> filter (spec_flagged mac wl) fs = [],
      w\<lparr>stdout := stdout w @ map flagged_line (filter (spec_flagged mac wl) fs)\<rparr>)
   \<and> report c mac wl =
       header_line (Some c) #
       map flagged_line (filter (spec_flagged mac wl) (functions_entry_points c)) @
       (if filter (spec_flagged mac wl) (functions_entry_points c) = [] then [no_bug_line] else [])
   \<and> length (map flagged_line (filter (spec_flagged mac wl) (functions_entry_points c))) =
       length (filter (spec_flagged mac wl) (functions_entry_points c))"
  by (simp add: for_functions_eq report_def check_access_controls_eq)

theorem flagged_lines_are_filtered_entry_points_witness:
  "report (Vault\<lparr>functions_entry_points := [deposit, withdraw, batchSwapGivenIn, constructor,
       balanceOf, deposit\<lparr>name := ''exit'', canonical_name := ''Vault.exit()''\<rparr>]\<rparr>)
     [''nonReentrant''] [''batchSwapGivenIn''] =
     [''### Check Vault access controls'',
      CHR 0x09 # ''- Vault.deposit() should have an non re-eentrant modifier'',
      CHR 0x09 # ''- Vault.exit() should have an non re-eentrant modifier'']"
  using flagged_lines_are_filtered_entry_points [where fs = "[]" and mac = "[''nonReentrant'']"
      and wl = "[''batchSwapGivenIn'']" and nbf = True and w = empty_world
      and c = "Vault\<lparr>functions_entry_points := [deposit, withdraw, batchSwapGivenIn, constructor,
         balanceOf, deposit\<lparr>name := ''exit'', canonical_name := ''Vault.exit()''\<rparr>]\<rparr>"]
  by (simp add: scenario_defs spec_flagged_def spec_is_protected_def header_line_def
      flagged_line_def no_bug_line_def)

text \<open>
  C8 (P1, the report is a total and deterministic function of its inputs). On a contract
  that is there, the checker returns without an error, and what it prints is the report
  of the contract and the two lists whatever world it starts in: nothing of the world
  (the text printed before, the project) enters the report. A second invocation on the
  same three inputs prints the same report again.
\<close>

theorem report_total_deterministic:
  "check_access_controls (Some c) mac wl w =
     (Inr (), w\<lparr>stdout := stdout w @ report c mac wl\<rparr>)
   \<and> snd (check_access_controls (Some c) mac wl (snd (check_access_controls (Some c) mac wl w))) =
       w\<lparr>stdout := stdout w @ report c mac wl @ report c mac wl\<rparr>"
  by (simp add: report_def check_access_controls_eq)

theorem report_total_deterministic_witness:
  "check_access_controls (Some Vault) [''nonReentrant''] [''batchSwapGivenIn'']
     \<lparr>contracts = [(''Vault'', Vault)], stdout = [''earlier output'']\<rparr> =
     (Inr (),
      \<lparr>contracts = [(''Vault'', Vault)],
       stdout = [''earlier output'', ''### Check Vault access controls'',
         CHR 0x09 # ''- Vault.deposit() should have an non re-eentrant modifier'']\<rparr>)"
proof -
  have r: "report Vault [''nonReentrant''] [''batchSwapGivenIn''] =
      [''### Check Vault access controls'',
       CHR 0x09 # ''- Vault.deposit() should have an non re-eentrant modifier'']"
    by (simp add: report_def check_access_controls_def loop_body_def print_def scenario_defs
        header_line_def flagged_line_def no_bug_line_def)
  show ?thesis
    using report_total_deterministic [where c = Vault and mac = "[''nonReentrant'']"
        and wl = "[''batchSwapGivenIn'']"
        and w = "\<lparr>contracts = [(''Vault'', Vault)], stdout = [''earlier output'']\<rparr>"]
    by (simp add: r)
qed

text \<open>Every step only appends to the output.\<close>

lemma loop_body_frame:
  "\<exists>out. snd (loop_body f mac wl s) = (snd s)\<lparr>stdout := stdout (snd s) @ out\<rparr>"
proof (cases "loop_body f mac wl s = s")
  case True
  then have "snd (loop_body f mac wl s) = (snd s)\<lparr>stdout := stdout (snd s) @ []\<rparr>"
    by simp
  then show ?thesis by blast
next
  case False
  then have "snd (loop_body f mac wl s) = (snd s)\<lparr>stdout := stdout (snd s) @ [flagged_line f]\<rparr>"
    by (auto simp: loop_body_def print_def split: if_splits)
  then show ?thesis by blast
qed

lemma for_functions_frame:
  "\<exists>out. snd (for_functions fs mac wl s) = (snd s)\<lparr>stdout := stdout (snd s) @ out\<rparr>"
proof (induction fs arbitrary: s)
  case Nil
  have "snd (for_functions [] mac wl s) = (snd s)\<lparr>stdout := stdout (snd s) @ []\<rparr>"
    by simp
  then show ?case by blast
next
  case (Cons f fs)
  obtain o1 where o1: "snd (loop_body f mac wl s) = (snd s)\<lparr>stdout := stdout (snd s) @ o1\<rparr>"
    using loop_body_frame by blast
  obtain o2 where o2: "snd (for_functions fs mac wl (loop_body f mac wl s)) =
      (snd (loop_body f mac wl s))\<lparr>stdout := stdout (snd (loop_body f mac wl s)) @ o2\<rparr>"
    using Cons.IH by blast
  have "snd (for_functions (f # fs) mac wl s) = (snd s)\<lparr>stdout := stdout (snd s) @ (o1 @ o2)\<rparr>"
    by (simp add: o2 o1)
  then show ?case by blast
qed

lemma check_access_controls_frame:
  "\<exists>out. snd (check_access_controls contract mac wl w) = w\<lparr>stdout := stdout w @ out\<rparr>"
proof (cases contract)
  case None
  then have "snd (check_access_controls contract mac wl w) =
      w\<lparr>stdout := stdout w @ [header_line None]\<rparr>"
    by (simp add: check_access_controls_def print_def)
  then show ?thesis by blast
next
  case (Some c)
  let ?w1 = "print (header_line (Some c)) w"
  obtain out where out: "snd (for_functions (functions_entry_points c) mac wl (True, ?w1)) =
      ?w1\<lparr>stdout := stdout ?w1 @ out\<rparr>"
    using for_functions_frame [of "functions_entry_points c" mac wl "(True, ?w1)"] by auto
  obtain nbf w2 where run:
      "for_functions (functions_entry_points c) mac wl (True, ?w1) = (nbf, w2)"
    by (cases "for_functions (functions_entry_points c) mac wl (True, ?w1)")
  from out run have w2: "w2 = ?w1\<lparr>stdout := stdout ?w1 @ out\<rparr>"
    by simp
  have "snd (check_access_controls contract mac wl w) =
      w\<lparr>stdout := stdout w @ (header_line (Some c) # out @ (if nbf then [no_bug_line] else []))\<rparr>"
  proof -
    have "snd (check_access_controls contract mac wl w) =
        (if nbf then print no_bug_line w2 else w2)"
      by (simp add: Some check_access_controls_def run)
    then show ?thesis
      by (simp add: w2 print_def)
  qed
  then show ?thesis by blast
qed

text \<open>
  C9 (the checker changes nothing but the output). Whatever contract argument it is
  given, also \<^verbatim>\<open>None\<close>, the checker leaves the project with every contract, function
  and modifier in it as it was, and the text printed before stays in front of what it
  adds: the world after the check is the world before it with lines appended to the
  output. The same holds of the whole run.
\<close>

theorem contract_model_unchanged:
  "contracts (snd (check_access_controls contract mac wl w)) = contracts w
   \<and> (\<exists>out. snd (check_access_controls contract mac wl w) = w\<lparr>stdout := stdout w @ out\<rparr>)
   \<and> contracts (snd (main w)) = contracts w"
proof -
  obtain out where out: "snd (check_access_controls contract mac wl w) = w\<lparr>stdout := stdout w @ out\<rparr>"
    using check_access_controls_frame by blast
  obtain out' where "snd (main w) = w\<lparr>stdout := stdout w @ out'\<rparr>"
    unfolding main_def using check_access_controls_frame by blast
  then have "contracts (snd (main w)) = contracts w"
    by simp
  moreover have "contracts (snd (check_access_controls contract mac wl w)) = contracts w"
    by (simp add: out)
  ultimately show ?thesis
    using out by blast
qed

theorem contract_model_unchanged_witness:
  "contracts (snd (main \<lparr>contracts = [(''Vault'', Vault)], stdout = []\<rparr>)) = [(''Vault'', Vault)]
   \<and> get_contract_from_name (snd (main \<lparr>contracts = [(''Vault'', Vault)], stdout = []\<rparr>)) ''Vault'' =
       Some Vault"
  using contract_model_unchanged [where w = "\<lparr>contracts = [(''Vault'', Vault)], stdout = []\<rparr>"]
  by (simp add: get_contract_from_name_def)

text \<open>The loop reads the two lists through their sets of elements.\<close>

lemma loop_body_set_cong:
  "set mac = set mac' \<Longrightarrow> set wl = set wl' \<Longrightarrow> loop_body f mac wl s = loop_body f mac' wl' s"
  by (simp add: loop_body_def)

lemma for_functions_set_cong:
  "set mac = set mac' \<Longrightarrow> set wl = set wl' \<Longrightarrow>
     for_functions fs mac wl s = for_functions fs mac' wl' s"
  by (induction fs arbitrary: s) (simp_all add: loop_body_set_cong [of mac mac' wl wl'])

text \<open>
  C10 (the two lists count as sets). The checker reads \<^verbatim>\<open>modifiers_access_controls\<close>
  and \<^verbatim>\<open>whitelist\<close> by membership only: two pairs of lists with the same elements,
  in any order and with any repetition, give the same result and the same output, for
  every contract argument and every world.
\<close>

theorem configuration_lists_as_sets:
  "set mac = set mac' \<Longrightarrow> set wl = set wl' \<Longrightarrow>
     check_access_controls contract mac wl w = check_access_controls contract mac' wl' w"
proof -
  assume m: "set mac = set mac'" and l: "set wl = set wl'"
  have "for_functions fs mac wl s = for_functions fs mac' wl' s" for fs s
    using m l by (rule for_functions_set_cong)
  then show ?thesis
    by (cases contract) (simp_all add: check_access_controls_def)
qed

theorem configuration_lists_as_sets_witness:
  "set [''nonReentrant'', ''whenNotPaused''] = set [''whenNotPaused'', ''nonReentrant'', ''whenNotPaused'']
   \<and> set [''batchSwapGivenIn'', ''batchSwapGivenOut''] =
       set [''batchSwapGivenOut'', ''batchSwapGivenOut'', ''batchSwapGivenIn'']
   \<and> check_access_controls (Some Vault) [''nonReentrant'', ''whenNotPaused'']
       [''batchSwapGivenIn'', ''batchSwapGivenOut''] empty_world =
     check_access_controls (Some Vault) [''whenNotPaused'', ''nonReentrant'', ''whenNotPaused'']
       [''batchSwapGivenOut'', ''batchSwapGivenOut'', ''batchSwapGivenIn''] empty_world"
proof -
  have m: "set [''nonReentrant'', ''whenNotPaused''] =
      set [''whenNotPaused'', ''nonReentrant'', ''whenNotPaused'']"
    by auto
  have l: "set [''batchSwapGivenIn'', ''batchSwapGivenOut''] =
      set [''batchSwapGivenOut'', ''batchSwapGivenOut'', ''batchSwapGivenIn'']"
    by auto
  show ?thesis
    using m l configuration_lists_as_sets [OF m l, of "Some Vault" empty_world]
    by blast
qed

end
